theory Spec2Isabelle
  imports Complex_Main "HOL-Library.Monad_Syntax"
begin

section \<open>Sequence primitives of the C++ standard library\<close>

text \<open>
  \<open>v.insert(v.begin() + n, x)\<close>, \<open>v.erase(v.begin() + n)\<close> and
  \<open>std::distance(v.begin(), std::find_if(v.begin(), v.end(), P))\<close> on a
  \<open>std::vector\<close>.  \<open>find_pos\<close> returns the length of the vector when no element
  satisfies the predicate (the iterator is \<open>end()\<close>).
\<close>

definition insert_at :: "nat \<Rightarrow> 'a \<Rightarrow> 'a list \<Rightarrow> 'a list" where
  "insert_at n x xs = take n xs @ x # drop n xs"

definition erase_at :: "nat \<Rightarrow> 'a list \<Rightarrow> 'a list" where
  "erase_at n xs = take n xs @ drop (Suc n) xs"

fun find_pos :: "('a \<Rightarrow> bool) \<Rightarrow> 'a list \<Rightarrow> nat" where
  "find_pos P [] = 0"
| "find_pos P (x # xs) = (if P x then 0 else Suc (find_pos P xs))"

section \<open>MenuBase (nativeui/menu_base.cc)\<close>

text \<open>
  A \<open>MenuItem*\<close> argument is an \<open>item_ref option\<close>, \<open>None\<close> being \<open>nullptr\<close>;
  a \<open>MenuBase*\<close> is a \<open>menu_ref\<close>.  The world holds the \<open>items_\<close> vector of every
  menu object, the owning-menu backlink of every item (\<open>item->menu()\<close>, written by
  \<open>item->set_menu\<close>), and the calls that the platform peer has received, oldest first.
  The vectors hold references that went through \<open>Insert\<close>, which rejects
  \<open>nullptr\<close>, so their elements are \<open>item_ref\<close>s.
\<close>

type_synonym item_ref = nat
type_synonym menu_ref = nat

text \<open>
  \<open>PlatformInsert\<close> and \<open>PlatformRemove\<close> are implemented per platform, outside
  this file.  A call is recorded with its arguments and with what the peer can observe
  of the logical state at the moment of the call: the \<open>items_\<close> vector of the menu and
  the backlink of the item.
\<close>

datatype platform_call =
  PlatformInsert menu_ref item_ref int "item_ref list" "menu_ref option"
| PlatformRemove menu_ref item_ref "item_ref list" "menu_ref option"

record world =
  items_of :: "menu_ref \<Rightarrow> item_ref list"
  menu_of :: "item_ref \<Rightarrow> menu_ref option"
  peer :: "platform_call list"

definition item_count :: "menu_ref \<Rightarrow> world \<Rightarrow> int" where
  "item_count this w = int (length (items_of w this))"

definition set_menu :: "item_ref \<Rightarrow> menu_ref option \<Rightarrow> world \<Rightarrow> world" where
  "set_menu it m w = w\<lparr>menu_of := (menu_of w)(it := m)\<rparr>"

definition platform_insert :: "menu_ref \<Rightarrow> item_ref \<Rightarrow> int \<Rightarrow> world \<Rightarrow> world" where
  "platform_insert this it index w =
     w\<lparr>peer := peer w @ [PlatformInsert this it index (items_of w this) (menu_of w it)]\<rparr>"

definition platform_remove :: "menu_ref \<Rightarrow> item_ref \<Rightarrow> world \<Rightarrow> world" where
  "platform_remove this it w =
     w\<lparr>peer := peer w @ [PlatformRemove this it (items_of w this) (menu_of w it)]\<rparr>"

definition Insert :: "menu_ref \<Rightarrow> item_ref option \<Rightarrow> int \<Rightarrow> world \<Rightarrow> world" where
  "Insert this item index w =
     (case item of
        None \<Rightarrow> w
      | Some it \<Rightarrow>
          if menu_of w it \<noteq> None \<or> index < 0 \<or> index > item_count this w then w
          else
            let w1 = w\<lparr>items_of := (items_of w)
                        (this := insert_at (nat index) it (items_of w this))\<rparr>;
                w2 = set_menu it (Some this) w1
            in platform_insert this it index w2)"

definition Append :: "menu_ref \<Rightarrow> item_ref option \<Rightarrow> world \<Rightarrow> world" where
  "Append this item w = Insert this item (item_count this w) w"

definition Remove :: "menu_ref \<Rightarrow> item_ref option \<Rightarrow> world \<Rightarrow> world" where
  "Remove this item w =
     (case item of
        None \<Rightarrow> w
      | Some it \<Rightarrow>
          let i = find_pos (\<lambda>x. x = it) (items_of w this) in
          if i = length (items_of w this) then w
          else
            let w1 = platform_remove this it w;
                w2 = set_menu it None w1
            in w2\<lparr>items_of := (items_of w2)(this := erase_at i (items_of w2 this))\<rparr>)"

text \<open>
  The states a program can reach: from the world in which every menu is freshly
  constructed (empty vector) and no item has an owner, by any sequence of
  \<open>Append\<close>, \<open>Insert\<close> and \<open>Remove\<close> calls on any menus with any arguments.
\<close>

datatype menu_call =
  Call_Append menu_ref "item_ref option"
| Call_Insert menu_ref "item_ref option" int
| Call_Remove menu_ref "item_ref option"

fun call :: "world \<Rightarrow> menu_call \<Rightarrow> world" where
  "call w (Call_Append this item) = Append this item w"
| "call w (Call_Insert this item index) = Insert this item index w"
| "call w (Call_Remove this item) = Remove this item w"

definition fresh :: world where
  "fresh = \<lparr>items_of = (\<lambda>_. []), menu_of = (\<lambda>_. None), peer = []\<rparr>"

definition run :: "menu_call list \<Rightarrow> world" where
  "run cs = foldl call fresh cs"

definition menu_inv :: "world \<Rightarrow> bool" where
  "menu_inv w \<longleftrightarrow>
     (\<forall>m. distinct (items_of w m)) \<and>
     (\<forall>m i. menu_of w i = Some m \<longleftrightarrow> i \<in> set (items_of w m))"

section \<open>Tab container on Windows (nativeui/win/tab_win.cc)\<close>

subsection \<open>Geometry and collaborators\<close>

text \<open>
  Modelled from the spec: \<open>Size\<close> and \<open>Rect\<close> of nativeui/gfx/geometry are not
  among the sources.  They are integer pairs; \<open>Enlarge\<close> inflates a size, \<open>Offset\<close>
  moves a rectangle and \<open>Inset\<close> moves its origin and shrinks it, as the layout
  description of the spec uses them.
\<close>

record Point =
  px :: int
  py :: int

record Size =
  width :: int
  height :: int

record Rect =
  rect_origin :: Point
  rect_size :: Size

definition Enlarge :: "int \<Rightarrow> int \<Rightarrow> Size \<Rightarrow> Size" where
  "Enlarge gw gh sz = \<lparr>width = width sz + gw, height = height sz + gh\<rparr>"

definition Offset :: "int \<Rightarrow> int \<Rightarrow> Rect \<Rightarrow> Rect" where
  "Offset dx dy r =
     r\<lparr>rect_origin := \<lparr>px = px (rect_origin r) + dx, py = py (rect_origin r) + dy\<rparr>\<rparr>"

definition set_height :: "int \<Rightarrow> Rect \<Rightarrow> Rect" where
  "set_height h r = r\<lparr>rect_size := (rect_size r)\<lparr>height := h\<rparr>\<rparr>"

definition Inset4 :: "int \<Rightarrow> int \<Rightarrow> int \<Rightarrow> int \<Rightarrow> Rect \<Rightarrow> Rect" where
  "Inset4 l t r b rc =
     \<lparr>rect_origin = \<lparr>px = px (rect_origin rc) + l, py = py (rect_origin rc) + t\<rparr>,
      rect_size = \<lparr>width = width (rect_size rc) - (l + r),
                   height = height (rect_size rc) - (t + b)\<rparr>\<rparr>"

definition Inset2 :: "int \<Rightarrow> int \<Rightarrow> Rect \<Rightarrow> Rect" where
  "Inset2 horizontal vertical r = Inset4 horizontal vertical horizontal vertical r"

subsection \<open>Single-precision arithmetic\<close>

text \<open>
  \<open>scale_factor()\<close> is a \<open>float\<close>, an IEEE 754 binary32 value.  A float is
  represented by the rational number it denotes.  An arithmetic operation between an
  \<open>int\<close> and a \<open>float\<close> converts the \<open>int\<close> to \<open>float\<close> first, and every
  operation on floats delivers its exact result rounded to the nearest binary32 value,
  ties going to the even significand: \<open>f32_round\<close>, with 24 significant bits and the
  smallest exponent \<open>-126\<close> (below it the spacing stays \<open>2^-149\<close>).  Passing a
  \<open>float\<close> where an \<open>int\<close> is expected truncates toward zero: \<open>cpp_trunc\<close>.
  Infinities are not represented: the magnitudes of a layout are far below \<open>2^128\<close>.

  \<open>bit_length k\<close> is the number of binary digits of a positive \<open>k\<close>, \<open>pow2 k\<close>
  is \<open>2^k\<close> and \<open>ilog2 r\<close> is the integer \<open>e\<close> with \<open>2^e \<le> r < 2^(e+1)\<close> for a
  positive \<open>r\<close>.
\<close>

function bit_length :: "int \<Rightarrow> int" where
  "bit_length k = (if k \<le> 0 then 0 else 1 + bit_length (k div 2))"
  by pat_completeness auto
termination
  by (relation "measure nat") auto

declare bit_length.simps [simp del]

definition pow2 :: "int \<Rightarrow> rat" where
  "pow2 k = (if 0 \<le> k then 2 ^ nat k else 1 / 2 ^ nat (- k))"

definition ilog2 :: "rat \<Rightarrow> int" where
  "ilog2 r =
     (let (a, b) = quotient_of r;
          d = bit_length a - bit_length b
      in if pow2 d \<le> r then d else d - 1)"

definition round_ties_even :: "rat \<Rightarrow> int" where
  "round_ties_even x =
     (let f = \<lfloor>x\<rfloor>; d = x - of_int f
      in if d < 1 / 2 then f else if 1 / 2 < d then f + 1 else if even f then f else f + 1)"

definition f32_round :: "rat \<Rightarrow> rat" where
  "f32_round r =
     (if r = 0 then 0
      else let e = max (ilog2 \<bar>r\<bar>) (- 126); q = pow2 (e - 23)
           in of_int (round_ties_even (r / q)) * q)"

definition f32_of_int :: "int \<Rightarrow> rat" where
  "f32_of_int k = f32_round (of_int k)"

definition f32_mul :: "rat \<Rightarrow> rat \<Rightarrow> rat" where
  "f32_mul a b = f32_round (a * b)"

definition f32_add :: "rat \<Rightarrow> rat \<Rightarrow> rat" where
  "f32_add a b = f32_round (a + b)"

definition f32_sub :: "rat \<Rightarrow> rat \<Rightarrow> rat" where
  "f32_sub a b = f32_round (a - b)"

definition cpp_trunc :: "rat \<Rightarrow> int" where
  "cpp_trunc r = (if 0 \<le> r then \<lfloor>r\<rfloor> else \<lceil>r\<rceil>)"

type_synonym font_ref = nat
type_synonym color = nat

text \<open>
  The services that the container consumes and that live outside the file:
  \<open>measure_text f t\<close> is \<open>ToCeiledSize(MeasureText(t, f))\<close>, whose height is also
  the value of \<open>std::ceil(MeasureText(t, f).height())\<close>, and the three defaults are
  the font, colour and scale factor (a float) that the \<open>ViewImpl\<close> constructor gives
  a new view.
\<close>

record services =
  measure_text :: "font_ref \<Rightarrow> string \<Rightarrow> Size"
  default_font :: font_ref
  default_color :: color
  default_scale :: rat

subsection \<open>TabItem\<close>

datatype ControlState = Normal | Hovered | Pressed

text \<open>
  \<open>on_select\<close> is a \<open>std::function\<close>: empty after construction, and the only value
  ever stored in it is the closure that calls \<open>SetSelectedItem\<close> of the container.
\<close>

datatype callback = Unset | Bound_SetSelectedItem

definition kHPadding :: int where "kHPadding = 2"
definition kVPadding :: int where "kVPadding = 1"
definition kTPadding :: int where "kTPadding = 1"

text \<open>\<open>addr\<close> is the address of the object, the identity that raw pointers compare.\<close>

record TabItem =
  addr :: nat
  title :: string
  item_size :: Size
  selected :: bool
  item_state :: ControlState
  item_font :: font_ref
  item_color :: color
  item_scale_factor :: rat
  item_allocation :: Rect
  on_select :: callback

definition new_TabItem :: "services \<Rightarrow> nat \<Rightarrow> TabItem" where
  "new_TabItem sv a =
     \<lparr>addr = a, title = [], item_size = \<lparr>width = 0, height = 0\<rparr>, selected = False,
      item_state = Normal, item_font = default_font sv, item_color = default_color sv,
      item_scale_factor = default_scale sv,
      item_allocation = \<lparr>rect_origin = \<lparr>px = 0, py = 0\<rparr>,
                         rect_size = \<lparr>width = 0, height = 0\<rparr>\<rparr>,
      on_select = Unset\<rparr>"

definition SetTitle :: "services \<Rightarrow> string \<Rightarrow> TabItem \<Rightarrow> TabItem" where
  "SetTitle sv t it =
     it\<lparr>title := t,
        item_size :=
          Enlarge (cpp_trunc (f32_mul (f32_of_int (2 * kHPadding)) (item_scale_factor it)))
                  (cpp_trunc (f32_mul (f32_of_int (2 * kVPadding)) (item_scale_factor it)))
                  (measure_text sv (item_font it) t)\<rparr>"

definition SetSelected :: "bool \<Rightarrow> TabItem \<Rightarrow> TabItem" where
  "SetSelected b it = it\<lparr>selected := b, item_state := (if b then Pressed else Normal)\<rparr>"

subsection \<open>TabImpl\<close>

text \<open>
  The page views belong to the enclosing \<open>Tab\<close>; the container reaches them through
  \<open>PageAt\<close>.  \<open>layouts\<close>, \<open>invalidates\<close> and \<open>emits\<close> count the executions of
  \<open>Layout()\<close>, the \<open>Invalidate()\<close> calls on the container and the emissions of
  \<open>on_selected_page_change\<close>.  \<open>next_addr\<close> is the address that the next
  \<open>new TabItem\<close> returns; an address is never handed out twice.
\<close>

record Page =
  visible :: bool
  page_allocation :: Rect

record TabImpl =
  items :: "TabItem list"
  selected_item :: "nat option"
  selected_item_index :: int
  items_height :: int
  font :: font_ref
  color :: color
  scale_factor :: rat
  size_allocation :: Rect
  pages :: "Page list"
  layouts :: nat
  invalidates :: nat
  emits :: nat
  next_addr :: nat

definition kContentPadding :: int where "kContentPadding = 5"

text \<open>
  Modelled from the spec: \<open>Tab::PageAt\<close> is in nativeui/tab.cc, which is not among
  the sources.  It returns the page view of a tab index, and the null pointer outside
  the page sequence (\<open>GetSelectedPage\<close> tests its result for null).
\<close>

definition PageAt :: "int \<Rightarrow> TabImpl \<Rightarrow> nat option" where
  "PageAt i s = (if 0 \<le> i \<and> i < int (length (pages s)) then Some (nat i) else None)"

text \<open>
  \<open>tab->PageAt(i)->SetVisible(b)\<close> and \<open>p->SetSelected(b)\<close> through a raw pointer:
  \<open>None\<close> is the dereference of a null pointer or of a pointer to a destroyed item.
\<close>

definition page_SetVisible :: "int \<Rightarrow> bool \<Rightarrow> TabImpl \<Rightarrow> TabImpl option" where
  "page_SetVisible i b s =
     (case PageAt i s of
        None \<Rightarrow> None
      | Some n \<Rightarrow> Some (s\<lparr>pages := (pages s)[n := (pages s ! n)\<lparr>visible := b\<rparr>]\<rparr>))"

definition item_SetSelected :: "nat \<Rightarrow> bool \<Rightarrow> TabImpl \<Rightarrow> TabImpl option" where
  "item_SetSelected p b s =
     (let i = find_pos (\<lambda>it. addr it = p) (items s) in
      if i = length (items s) then None
      else Some (s\<lparr>items := (items s)[i := SetSelected b (items s ! i)]\<rparr>))"

definition fresh_items_height :: "services \<Rightarrow> TabImpl \<Rightarrow> int" where
  "fresh_items_height sv s =
     cpp_trunc
       (f32_add
          (f32_add (f32_of_int (height (measure_text sv (font s) ''bp'')))
                   (f32_mul (f32_of_int (2 * kVPadding + kTPadding)) (scale_factor s)))
          (f32_of_int 1))"

definition GetItemsHeight :: "services \<Rightarrow> TabImpl \<Rightarrow> int \<times> TabImpl" where
  "GetItemsHeight sv s =
     (if items_height s = - 1
      then (fresh_items_height sv s, s\<lparr>items_height := fresh_items_height sv s\<rparr>)
      else (items_height s, s))"

definition GetSelectedPage :: "TabImpl \<Rightarrow> nat option" where
  "GetSelectedPage s = PageAt (selected_item_index s) s"

fun place_items :: "Point \<Rightarrow> int \<Rightarrow> rat \<Rightarrow> int \<Rightarrow> TabItem list \<Rightarrow> TabItem list" where
  "place_items org h sf x [] = []"
| "place_items org h sf x (it # its) =
     (let rect = \<lparr>rect_origin = org, rect_size = item_size it\<rparr>;
          rect = Offset x 0 rect;
          rect = set_height h rect;
          rect = (if \<not> selected it
                  then Inset4 0 (cpp_trunc (f32_mul (f32_of_int kTPadding) sf)) 0 0 rect
                  else rect)
      in it\<lparr>item_allocation := rect\<rparr> #
         place_items org h sf (x + width (rect_size rect)) its)"

definition Layout :: "services \<Rightarrow> TabImpl \<Rightarrow> TabImpl" where
  "Layout sv s =
     (let s1 = (if items s = [] then s
                else let (h, t) = GetItemsHeight sv s
                     in t\<lparr>items := place_items (rect_origin (size_allocation t)) h
                                      (scale_factor t) 0 (items t)\<rparr>);
          s2 = (case GetSelectedPage s1 of
                  None \<Rightarrow> s1
                | Some n \<Rightarrow>
                    let (h, t) = GetItemsHeight sv s1;
                        rect = Inset2
                                 (cpp_trunc (f32_mul (f32_of_int kContentPadding) (scale_factor t)))
                                 (cpp_trunc (f32_mul (f32_of_int kContentPadding) (scale_factor t)))
                                 (size_allocation t);
                        rect = Inset4 0
                                 (cpp_trunc (f32_sub (f32_of_int h)
                                    (f32_mul (f32_of_int 1) (scale_factor t)))) 0 0 rect
                    in t\<lparr>pages := (pages t)[n := (pages t ! n)\<lparr>page_allocation := rect\<rparr>]\<rparr>)
      in s2\<lparr>invalidates := Suc (invalidates s2), layouts := Suc (layouts s2)\<rparr>)"

definition Emit :: "TabImpl \<Rightarrow> TabImpl" where
  "Emit s = s\<lparr>emits := Suc (emits s)\<rparr>"

definition SetSelectedItem :: "services \<Rightarrow> nat option \<Rightarrow> TabImpl \<Rightarrow> TabImpl option" where
  "SetSelectedItem sv item s =
     do {
       s1 \<leftarrow> (case selected_item s of
                None \<Rightarrow> Some s
              | Some old \<Rightarrow>
                  do {
                    t \<leftarrow> item_SetSelected old False s;
                    page_SetVisible (selected_item_index t) False t
                  });
       let s2 = s1\<lparr>selected_item := item\<rparr>;
       let s3 = s2\<lparr>selected_item_index :=
                      int (find_pos (\<lambda>it. Some (addr it) = item) (items s2))\<rparr>;
       p \<leftarrow> selected_item s3;
       s4 \<leftarrow> item_SetSelected p True s3;
       s5 \<leftarrow> page_SetVisible (selected_item_index s4) True s4;
       Some (Emit (Layout sv s5))
     }"

definition AddPage :: "services \<Rightarrow> string \<Rightarrow> TabImpl \<Rightarrow> TabImpl option" where
  "AddPage sv t s =
     (let item = SetTitle sv t (new_TabItem sv (next_addr s));
          item = item\<lparr>on_select := Bound_SetSelectedItem\<rparr>;
          s1 = s\<lparr>items := items s @ [item], next_addr := Suc (next_addr s)\<rparr>
      in do {
           s2 \<leftarrow> (if length (items s1) = 1
                    then SetSelectedItem sv (Some (addr (items s1 ! 0))) s1
                    else Some s1);
           Some (Layout sv s2)
         })"

text \<open>The item that \<open>AddPage\<close> has built when it appends it.\<close>

definition added_item :: "services \<Rightarrow> string \<Rightarrow> TabImpl \<Rightarrow> TabItem" where
  "added_item sv t s = (SetTitle sv t (new_TabItem sv (next_addr s)))\<lparr>on_select := Bound_SetSelectedItem\<rparr>"

definition RemovePageAt :: "services \<Rightarrow> int \<Rightarrow> TabImpl \<Rightarrow> TabImpl" where
  "RemovePageAt sv index s =
     (if index < 0 \<or> nat index \<ge> length (items s) then s
      else
        let s1 = (if index = selected_item_index s then
                    (if length (items s) = 1
                     then s\<lparr>selected_item_index := - 1, selected_item := None\<rparr>
                     else
                       let t = s\<lparr>selected_item_index :=
                                     (index + 1) mod int (length (items s))\<rparr>;
                           n = nat (selected_item_index t);
                           t = t\<lparr>selected_item := Some (addr (items t ! n))\<rparr>
                       in t\<lparr>items := (items t)[n := SetSelected True (items t ! n)]\<rparr>)
                  else s)
        in Layout sv (s1\<lparr>items := erase_at (nat index) (items s1)\<rparr>))"

definition SelectItemAt :: "services \<Rightarrow> int \<Rightarrow> TabImpl \<Rightarrow> TabImpl option" where
  "SelectItemAt sv index s =
     (if index < 0 \<or> nat index \<ge> length (items s) then Some s
      else SetSelectedItem sv (Some (addr (items s ! nat index))) s)"

text \<open>The call of an item's \<open>on_select\<close> with the item itself, as a mouse-down does.\<close>

definition call_on_select :: "services \<Rightarrow> TabItem \<Rightarrow> TabImpl \<Rightarrow> TabImpl option" where
  "call_on_select sv it s =
     (case on_select it of
        Unset \<Rightarrow> None
      | Bound_SetSelectedItem \<Rightarrow> SetSelectedItem sv (Some (addr it)) s)"

definition GetMinimumSize :: "services \<Rightarrow> TabImpl \<Rightarrow> Size \<times> TabImpl" where
  "GetMinimumSize sv s =
     (let w = foldl (\<lambda>a b. a + width (rect_size (item_allocation b))) 0 (items s);
          (h, t) = GetItemsHeight sv s;
          sz = \<lparr>width = w, height = h\<rparr>
      in (Enlarge (cpp_trunc (f32_mul (f32_of_int (2 * kContentPadding)) (scale_factor t)))
                  (cpp_trunc (f32_mul (f32_of_int (2 * kContentPadding)) (scale_factor t)))
                  sz, t))"

definition selected_item_index_get :: "TabImpl \<Rightarrow> int" where
  "selected_item_index_get s = selected_item_index s"

definition GetSelectedPageIndex :: "TabImpl \<Rightarrow> int" where
  "GetSelectedPageIndex s = selected_item_index_get s"

text \<open>
  \<open>ViewImpl::SetFont\<close>, \<open>ViewImpl::SetColor\<close> and \<open>ContainerImpl::OnDPIChanged\<close> are
  outside the file: the first two store the property in the view, and after the third
  \<open>scale_factor()\<close> is the new factor, here the argument \<open>sf\<close>.
\<close>

definition SetFont :: "services \<Rightarrow> font_ref \<Rightarrow> TabImpl \<Rightarrow> TabImpl" where
  "SetFont sv f s =
     (let s1 = s\<lparr>font := f\<rparr>;
          s2 = s1\<lparr>items := map (\<lambda>it. it\<lparr>item_font := f\<rparr>) (items s1)\<rparr>;
          s3 = s2\<lparr>items_height := - 1\<rparr>
      in Layout sv s3)"

definition SetColor :: "color \<Rightarrow> TabImpl \<Rightarrow> TabImpl" where
  "SetColor c s =
     (let s1 = s\<lparr>color := c\<rparr>;
          s2 = s1\<lparr>items := map (\<lambda>it. it\<lparr>item_color := c\<rparr>) (items s1)\<rparr>
      in s2\<lparr>invalidates := Suc (invalidates s2)\<rparr>)"

definition OnDPIChanged :: "services \<Rightarrow> rat \<Rightarrow> TabImpl \<Rightarrow> TabImpl" where
  "OnDPIChanged sv sf s =
     (let s1 = s\<lparr>scale_factor := sf\<rparr>;
          s2 = s1\<lparr>items_height := - 1\<rparr>
      in Layout sv s2)"

text \<open>A container after construction, for an enclosing \<open>Tab\<close> that holds \<open>ps\<close>.\<close>

definition new_TabImpl :: "services \<Rightarrow> Rect \<Rightarrow> Page list \<Rightarrow> TabImpl" where
  "new_TabImpl sv r ps =
     \<lparr>items = [], selected_item = None, selected_item_index = - 1, items_height = - 1,
      font = default_font sv, color = default_color sv, scale_factor = default_scale sv,
      size_allocation = r, pages = ps, layouts = 0, invalidates = 0, emits = 0,
      next_addr = 0\<rparr>"

text \<open>
  What the data model asks of the selected index with respect to the item sequence:
  it is \<open>-1\<close> or the index of an item.
\<close>

definition selected_index_valid :: "TabImpl \<Rightarrow> bool" where
  "selected_index_valid s \<longleftrightarrow>
     selected_item_index s = - 1 \<or>
     (0 \<le> selected_item_index s \<and> selected_item_index s < int (length (items s)))"

section \<open>Example containers\<close>

text \<open>
  A text service that measures seven pixels a character and fifteen pixels a line, at
  scale factor 1, at 1.25 and at the float nearest to 1.3; an enclosing \<open>Tab\<close> that holds three page views, the
  first visible and the later ones hidden; and the container after the pages
  \<open>a\<close>, \<open>b\<close> and \<open>c\<close> have been added, \<open>a\<close> being selected.
\<close>

definition sv_ex :: services where
  "sv_ex = \<lparr>measure_text = (\<lambda>f t. \<lparr>width = 7 * int (length t), height = 15\<rparr>),
            default_font = 1, default_color = 0, default_scale = 1\<rparr>"

definition sv_125 :: services where
  "sv_125 = sv_ex\<lparr>default_scale := 5 / 4\<rparr>"

definition rect_ex :: Rect where
  "rect_ex = \<lparr>rect_origin = \<lparr>px = 0, py = 0\<rparr>, rect_size = \<lparr>width = 200, height = 100\<rparr>\<rparr>"

definition page_ex :: "bool \<Rightarrow> Page" where
  "page_ex b = \<lparr>visible = b,
                page_allocation = \<lparr>rect_origin = \<lparr>px = 0, py = 0\<rparr>,
                                   rect_size = \<lparr>width = 0, height = 0\<rparr>\<rparr>\<rparr>"

definition tab_ex :: "services \<Rightarrow> TabImpl" where
  "tab_ex sv = new_TabImpl sv rect_ex [page_ex True, page_ex False, page_ex False]"

definition tab_abc :: "TabImpl option" where
  "tab_abc =
     do {
       s \<leftarrow> AddPage sv_ex ''a'' (tab_ex sv_ex);
       s \<leftarrow> AddPage sv_ex ''b'' s;
       AddPage sv_ex ''c'' s
     }"

definition sv_130 :: services where
  "sv_130 = sv_ex\<lparr>default_scale := f32_round (13 / 10)\<rparr>"

text \<open>
  Pages \<open>a\<close> and \<open>b\<close>, \<open>b\<close> selected, then the page of index 0 removed twice.
\<close>

definition tab_emptied_stale :: "TabImpl option" where
  "tab_emptied_stale =
     do {
       s \<leftarrow> AddPage sv_ex ''a'' (tab_ex sv_ex);
       s \<leftarrow> AddPage sv_ex ''b'' s;
       s \<leftarrow> SelectItemAt sv_ex 1 s;
       Some (RemovePageAt sv_ex 0 (RemovePageAt sv_ex 0 s))
     }"

section \<open>Facts about the sequence primitives\<close>

lemma length_insert_at: "length (insert_at n x xs) = Suc (length xs)"
  by (simp add: insert_at_def)

lemma set_insert_at: "set (insert_at n x xs) = insert x (set xs)"
proof -
  have "set (take n xs) \<union> set (drop n xs) = set xs"
    by (metis append_take_drop_id set_append)
  then show ?thesis by (auto simp: insert_at_def)
qed

lemma distinct_insert_at:
  assumes "distinct xs" and "x \<notin> set xs"
  shows "distinct (insert_at n x xs)"
proof -
  have "distinct (take n xs @ drop n xs)" using assms by simp
  then have "distinct (take n xs)" "distinct (drop n xs)"
    "set (take n xs) \<inter> set (drop n xs) = {}"
    by (simp_all only: distinct_append)
  moreover have "x \<notin> set (take n xs)" "x \<notin> set (drop n xs)"
    using assms(2) by (auto dest: in_set_takeD in_set_dropD)
  ultimately show ?thesis unfolding insert_at_def by auto
qed

lemma find_pos_le: "find_pos P xs \<le> length xs"
  by (induction xs) auto

lemma find_pos_length_iff: "find_pos P xs = length xs \<longleftrightarrow> (\<forall>x \<in> set xs. \<not> P x)"
  by (induction xs) auto

lemma find_pos_eq_absent: "find_pos (\<lambda>y. y = x) xs = length xs \<longleftrightarrow> x \<notin> set xs"
  by (auto simp: find_pos_length_iff)

lemma erase_at_find_pos: "erase_at (find_pos (\<lambda>y. y = x) xs) xs = remove1 x xs"
  by (induction xs) (auto simp: erase_at_def)

lemma find_pos_insert_at:
  "x \<notin> set xs \<Longrightarrow> n \<le> length xs \<Longrightarrow> find_pos (\<lambda>y. y = x) (insert_at n x xs) = n"
proof (induction xs arbitrary: n)
  case Nil
  then show ?case by (simp add: insert_at_def)
next
  case (Cons a xs)
  show ?case
  proof (cases n)
    case 0
    then show ?thesis by (simp add: insert_at_def)
  next
    case (Suc k)
    with Cons.prems have "x \<noteq> a" "x \<notin> set xs" "k \<le> length xs" by auto
    with Cons.IH [of k] Suc show ?thesis by (simp add: insert_at_def)
  qed
qed

lemma erase_at_insert_at: "n \<le> length xs \<Longrightarrow> erase_at n (insert_at n x xs) = xs"
  by (simp add: erase_at_def insert_at_def)

lemma erase_at_split:
  assumes "n < length xs"
  shows "xs = take n xs @ xs ! n # drop (Suc n) xs \<and> erase_at n xs = take n xs @ drop (Suc n) xs"
  using assms by (simp add: erase_at_def id_take_nth_drop [symmetric])

lemma find_pos_nth: "find_pos P xs < length xs \<Longrightarrow> P (xs ! find_pos P xs)"
  by (induction xs) auto

lemma find_pos_take: "x \<in> set (take (find_pos P xs) xs) \<Longrightarrow> \<not> P x"
  by (induction xs) (auto split: if_splits)

section \<open>Facts about MenuBase\<close>

lemma Insert_reject:
  "item = None \<or> (\<exists>it. item = Some it \<and> menu_of w it \<noteq> None) \<or> index < 0 \<or>
   index > item_count this w \<Longrightarrow> Insert this item index w = w"
  by (auto simp: Insert_def split: option.splits)

lemma Insert_accept:
  assumes "menu_of w it = None" and "0 \<le> index" and "index \<le> item_count this w"
  shows "Insert this (Some it) index w =
           \<lparr>items_of = (items_of w)(this := insert_at (nat index) it (items_of w this)),
            menu_of = (menu_of w)(it := Some this),
            peer = peer w @ [PlatformInsert this it index
                     (insert_at (nat index) it (items_of w this)) (Some this)]\<rparr>"
  using assms by (simp add: Insert_def Let_def set_menu_def platform_insert_def)

lemma Remove_absent:
  "item = None \<or> (\<exists>it. item = Some it \<and> it \<notin> set (items_of w this)) \<Longrightarrow> Remove this item w = w"
  by (auto simp: Remove_def Let_def find_pos_eq_absent split: option.splits)

lemma Remove_present:
  assumes "it \<in> set (items_of w this)"
  shows "Remove this (Some it) w =
           \<lparr>items_of = (items_of w)(this := remove1 it (items_of w this)),
            menu_of = (menu_of w)(it := None),
            peer = peer w @ [PlatformRemove this it (items_of w this) (menu_of w it)]\<rparr>"
  using assms
  by (simp add: Remove_def Let_def find_pos_eq_absent set_menu_def platform_remove_def
      erase_at_find_pos)

lemma remove1_split:
  "x \<in> set xs \<Longrightarrow> \<exists>ys zs. xs = ys @ x # zs \<and> x \<notin> set ys \<and> remove1 x xs = ys @ zs"
proof (induction xs)
  case Nil
  then show ?case by simp
next
  case (Cons a xs)
  show ?case
  proof (cases "a = x")
    case True
    then have "a # xs = [] @ x # xs \<and> x \<notin> set [] \<and> remove1 x (a # xs) = [] @ xs" by simp
    then show ?thesis by blast
  next
    case False
    with Cons obtain ys zs where "xs = ys @ x # zs" "x \<notin> set ys" "remove1 x xs = ys @ zs"
      by auto
    with False have "a # xs = (a # ys) @ x # zs \<and> x \<notin> set (a # ys) \<and>
        remove1 x (a # xs) = (a # ys) @ zs" by auto
    then show ?thesis by blast
  qed
qed

lemma menu_inv_fresh: "menu_inv fresh"
  by (simp add: menu_inv_def fresh_def)

lemma menu_inv_unowned: "menu_inv w \<Longrightarrow> menu_of w it = None \<Longrightarrow> it \<notin> set (items_of w m)"
  by (metis menu_inv_def option.distinct(1))

lemma menu_inv_Insert:
  assumes inv: "menu_inv w"
  shows "menu_inv (Insert this item index w)"
proof (cases "\<exists>it. item = Some it \<and> menu_of w it = None \<and> 0 \<le> index \<and> index \<le> item_count this w")
  case False
  then have "Insert this item index w = w"
    by (intro Insert_reject) (cases item; auto)
  with inv show ?thesis by simp
next
  case True
  then obtain it where it: "item = Some it" "menu_of w it = None" "0 \<le> index"
    "index \<le> item_count this w" by blast
  have absent: "it \<notin> set (items_of w m)" for m
    using inv it(2) by (rule menu_inv_unowned)
  have dist: "distinct (items_of w m)" for m
    using inv by (simp add: menu_inv_def)
  have link: "menu_of w i = Some m \<longleftrightarrow> i \<in> set (items_of w m)" for i m
    using inv by (simp add: menu_inv_def)
  show ?thesis
    unfolding it(1) Insert_accept [OF it(2,3,4)] menu_inv_def
    using absent dist link by (auto simp: set_insert_at distinct_insert_at)
qed

lemma menu_inv_Append: "menu_inv w \<Longrightarrow> menu_inv (Append this item w)"
  by (simp add: Append_def menu_inv_Insert)

lemma menu_inv_Remove:
  assumes inv: "menu_inv w"
  shows "menu_inv (Remove this item w)"
proof (cases "\<exists>it. item = Some it \<and> it \<in> set (items_of w this)")
  case False
  then have "Remove this item w = w"
    by (intro Remove_absent) (cases item; auto)
  with inv show ?thesis by simp
next
  case True
  then obtain it where it: "item = Some it" "it \<in> set (items_of w this)" by blast
  have dist: "distinct (items_of w m)" for m
    using inv by (simp add: menu_inv_def)
  have link: "menu_of w i = Some m \<longleftrightarrow> i \<in> set (items_of w m)" for i m
    using inv by (simp add: menu_inv_def)
  have owner: "menu_of w it = Some this" using it(2) link by simp
  have other: "it \<notin> set (items_of w m)" if "m \<noteq> this" for m
    using that owner link [of it m] by simp
  show ?thesis
    unfolding it(1) Remove_present [OF it(2)] menu_inv_def
    using dist link other by (auto simp: set_remove1_eq)
qed

lemma menu_inv_call: "menu_inv w \<Longrightarrow> menu_inv (call w c)"
  by (cases c) (simp_all add: menu_inv_Insert menu_inv_Append menu_inv_Remove)

lemma menu_inv_foldl: "menu_inv w \<Longrightarrow> menu_inv (foldl call w cs)"
  by (induction cs arbitrary: w) (simp_all add: menu_inv_call)

lemma menu_inv_run: "menu_inv (run cs)"
  unfolding run_def by (rule menu_inv_foldl [OF menu_inv_fresh])

section \<open>Facts about the Tab container\<close>


lemma map_update_same:
  "n < length xs \<Longrightarrow> f y = f (xs ! n) \<Longrightarrow> map f (xs[n := y]) = map f xs"
  by (simp add: map_update list_update_same_conv)

lemma place_items_map:
  assumes "\<And>it r. f (it\<lparr>item_allocation := r\<rparr>) = f it"
  shows "map f (place_items org h sf x its) = map f its"
  by (induction its arbitrary: x) (simp_all add: Let_def assms)

lemma place_items_width:
  "map (\<lambda>it. width (rect_size (item_allocation it))) (place_items org h sf x its) =
   map (\<lambda>it. width (item_size it)) its"
  by (induction its arbitrary: x)
    (simp_all add: Let_def Offset_def set_height_def Inset4_def)

lemma length_place_items: "length (place_items org h sf x its) = length its"
  using place_items_map [of "\<lambda>_. ()" org h sf x its] by (metis length_map)

lemma GetItemsHeight_unfold:
  "GetItemsHeight sv s = (fst (GetItemsHeight sv s), s\<lparr>items_height := fst (GetItemsHeight sv s)\<rparr>)"
  by (simp add: GetItemsHeight_def)

text \<open>The two stages of \<open>Layout\<close>, named so that each can be described alone.\<close>

lemma Layout_stages:
  "Layout sv s =
     (let s1 = (if items s = [] then s
                else s\<lparr>items_height := fst (GetItemsHeight sv s),
                       items := place_items (rect_origin (size_allocation s))
                                  (fst (GetItemsHeight sv s)) (scale_factor s) 0 (items s)\<rparr>);
          s2 = (case GetSelectedPage s1 of
                  None \<Rightarrow> s1
                | Some n \<Rightarrow>
                    s1\<lparr>items_height := fst (GetItemsHeight sv s1),
                        pages := (pages s1)[n := (pages s1 ! n)\<lparr>page_allocation :=
                          Inset4 0 (cpp_trunc (f32_sub (f32_of_int (fst (GetItemsHeight sv s1)))
                                      (f32_mul (f32_of_int 1) (scale_factor s1)))) 0 0
                            (Inset2
                               (cpp_trunc (f32_mul (f32_of_int kContentPadding) (scale_factor s1)))
                               (cpp_trunc (f32_mul (f32_of_int kContentPadding) (scale_factor s1)))
                               (size_allocation s1))\<rparr>]\<rparr>)
      in s2\<lparr>invalidates := Suc (invalidates s2), layouts := Suc (layouts s2)\<rparr>)"
  by (simp add: Layout_def GetItemsHeight_def Let_def split: option.splits)

lemma Layout_counters:
  "layouts (Layout sv s) = Suc (layouts s)" "invalidates (Layout sv s) = Suc (invalidates s)"
  "emits (Layout sv s) = emits s"
  by (simp_all add: Layout_stages Let_def split: option.splits)

lemma Layout_selection:
  "selected_item (Layout sv s) = selected_item s"
  "selected_item_index (Layout sv s) = selected_item_index s"
  "next_addr (Layout sv s) = next_addr s"
  by (simp_all add: Layout_stages Let_def split: option.splits)

lemma Layout_properties:
  "font (Layout sv s) = font s" "color (Layout sv s) = color s"
  "scale_factor (Layout sv s) = scale_factor s"
  "size_allocation (Layout sv s) = size_allocation s"
  by (simp_all add: Layout_stages Let_def split: option.splits)

lemma Layout_items_map:
  assumes "\<And>it r. f (it\<lparr>item_allocation := r\<rparr>) = f it"
  shows "map f (items (Layout sv s)) = map f (items s)"
  using place_items_map [of f, OF assms]
  by (simp add: Layout_stages Let_def split: option.splits)

lemma Layout_items_length: "length (items (Layout sv s)) = length (items s)"
  using Layout_items_map [of "\<lambda>_. ()" sv s] by (metis length_map)

lemma Layout_items_width:
  "map (\<lambda>it. width (rect_size (item_allocation it))) (items (Layout sv s)) =
   map (\<lambda>it. width (item_size it)) (items s)"
  by (simp add: Layout_stages Let_def place_items_width split: option.splits)

lemma Layout_pages:
  "length (pages (Layout sv s)) = length (pages s)"
  "map visible (pages (Layout sv s)) = map visible (pages s)"
  by (auto simp: Layout_stages Let_def GetSelectedPage_def PageAt_def map_update_same
      split: option.splits if_splits)

lemma fresh_items_height_cong:
  "font t = font s \<Longrightarrow> scale_factor t = scale_factor s \<Longrightarrow>
   fresh_items_height sv t = fresh_items_height sv s"
  by (simp add: fresh_items_height_def)

lemma Layout_items_height:
  "items_height (Layout sv s) = items_height s \<or>
   items_height (Layout sv s) = fst (GetItemsHeight sv s)"
  by (auto simp: Layout_stages Let_def GetItemsHeight_def fresh_items_height_def
      split: option.splits)

lemma GetItemsHeight_Layout: "fst (GetItemsHeight sv (Layout sv s)) = fst (GetItemsHeight sv s)"
proof -
  have f: "fresh_items_height sv (Layout sv s) = fresh_items_height sv s"
    by (rule fresh_items_height_cong) (simp_all add: Layout_properties)
  from Layout_items_height [of sv s] show ?thesis
    by (auto simp: GetItemsHeight_def f)
qed

lemma GetItemsHeight_invalidated:
  "items_height s = - 1 \<Longrightarrow> fst (GetItemsHeight sv s) = fresh_items_height sv s"
  by (simp add: GetItemsHeight_def)

lemma item_SetSelected_found:
  assumes "find_pos (\<lambda>it. addr it = p) (items s) = n" and "n < length (items s)"
  shows "item_SetSelected p b s =
           Some (s\<lparr>items := (items s)[n := SetSelected b (items s ! n)]\<rparr>)"
  using assms by (simp add: item_SetSelected_def Let_def)

lemma page_SetVisible_in_range:
  assumes "n < length (pages s)"
  shows "page_SetVisible (int n) b s =
           Some (s\<lparr>pages := (pages s)[n := (pages s ! n)\<lparr>visible := b\<rparr>]\<rparr>)"
  using assms by (simp add: page_SetVisible_def PageAt_def)


lemma SetSelectedItem_first:
  assumes "selected_item s = None"
    and "find_pos (\<lambda>it. addr it = p) (items s) = n" and "n < length (items s)"
    and "n < length (pages s)"
  shows "SetSelectedItem sv (Some p) s =
     Some (Emit (Layout sv (s\<lparr>selected_item := Some p, selected_item_index := int n,
        items := (items s)[n := SetSelected True (items s ! n)],
        pages := (pages s)[n := (pages s ! n)\<lparr>visible := True\<rparr>]\<rparr>)))"
  using assms
  by (simp add: SetSelectedItem_def item_SetSelected_def page_SetVisible_def PageAt_def Let_def)





text \<open>
  Two products that single precision rounds: ten times the float nearest to 1.3 is
  13, and at the scale factor \<open>160 / 96.f\<close> three times the factor is 5, so that
  the strip height for a line of 15 pixels is 21.
\<close>

lemma f32_mul_10_by_1_3: "f32_mul (f32_of_int 10) (f32_round (13 / 10)) = 13"
  by code_simp

lemma fresh_items_height_at_160_dpi:
  "fresh_items_height sv_ex ((tab_ex sv_ex)\<lparr>scale_factor := f32_round (160 / 96)\<rparr>) = 21"
  by code_simp

lemma foldl_add_sum_list:
  "foldl (\<lambda>a b. a + f b) a0 xs = (a0::int) + sum_list (map f xs)"
  by (induction xs arbitrary: a0) simp_all

lemma GetMinimumSize_unfold:
  "fst (GetMinimumSize sv s) =
     \<lparr>width = sum_list (map (\<lambda>it. width (rect_size (item_allocation it))) (items s)) +
              cpp_trunc (f32_mul (f32_of_int (2 * kContentPadding)) (scale_factor s)),
      height = fst (GetItemsHeight sv s) +
               cpp_trunc (f32_mul (f32_of_int (2 * kContentPadding)) (scale_factor s))\<rparr>"
  by (simp add: GetMinimumSize_def GetItemsHeight_def Let_def foldl_add_sum_list Enlarge_def)

lemma SetFont_unfold:
  "SetFont sv f s = Layout sv (s\<lparr>font := f, items := map (\<lambda>it. it\<lparr>item_font := f\<rparr>) (items s),
      items_height := - 1\<rparr>)"
  by (simp add: SetFont_def Let_def)

lemma OnDPIChanged_unfold:
  "OnDPIChanged sv sf s = Layout sv (s\<lparr>scale_factor := sf, items_height := - 1\<rparr>)"
  by (simp add: OnDPIChanged_def Let_def)

lemma Layout_after_invalidation:
  assumes "items_height t = - 1"
  shows "fst (GetItemsHeight sv (Layout sv t)) = fresh_items_height sv (Layout sv t)"
proof -
  have "fst (GetItemsHeight sv (Layout sv t)) = fresh_items_height sv t"
    using assms by (simp add: GetItemsHeight_Layout GetItemsHeight_invalidated)
  also have "\<dots> = fresh_items_height sv (Layout sv t)"
    by (rule fresh_items_height_cong [symmetric]) (simp_all add: Layout_properties)
  finally show ?thesis .
qed

lemma added_item_fields:
  "addr (added_item sv t s) = next_addr s" "title (added_item sv t s) = t"
  "selected (added_item sv t s) = False" "on_select (added_item sv t s) = Bound_SetSelectedItem"
  by (simp_all add: added_item_def SetTitle_def new_TabItem_def)

lemma AddPage_later:
  assumes "items s \<noteq> []"
  shows "AddPage sv t s =
     Some (Layout sv (s\<lparr>items := items s @ [added_item sv t s], next_addr := Suc (next_addr s)\<rparr>))"
proof -
  have "length (items s @ [added_item sv t s]) \<noteq> 1" using assms by (cases "items s") auto
  then show ?thesis by (simp add: AddPage_def Let_def added_item_def)
qed

lemma AddPage_first:
  assumes "items s = []" and "selected_item s = None" and "pages s \<noteq> []"
  shows "AddPage sv t s =
     Some (Layout sv (Emit (Layout sv
       (s\<lparr>items := [SetSelected True (added_item sv t s)], next_addr := Suc (next_addr s),
           selected_item := Some (next_addr s), selected_item_index := 0,
           pages := (pages s)[0 := (pages s ! 0)\<lparr>visible := True\<rparr>]\<rparr>))))"
proof -
  let ?s1 = "s\<lparr>items := items s @ [added_item sv t s], next_addr := Suc (next_addr s)\<rparr>"
  have sel: "SetSelectedItem sv (Some (next_addr s)) ?s1 =
     Some (Emit (Layout sv (?s1\<lparr>selected_item := Some (next_addr s), selected_item_index := int 0,
        items := (items ?s1)[0 := SetSelected True (items ?s1 ! 0)],
        pages := (pages ?s1)[0 := (pages ?s1 ! 0)\<lparr>visible := True\<rparr>]\<rparr>)))"
    using assms by (intro SetSelectedItem_first) (simp_all add: added_item_fields)
  have eq: "?s1\<lparr>selected_item := Some (next_addr s), selected_item_index := int 0,
        items := (items ?s1)[0 := SetSelected True (items ?s1 ! 0)],
        pages := (pages ?s1)[0 := (pages ?s1 ! 0)\<lparr>visible := True\<rparr>]\<rparr> =
      s\<lparr>items := [SetSelected True (added_item sv t s)], next_addr := Suc (next_addr s),
           selected_item := Some (next_addr s), selected_item_index := 0,
           pages := (pages s)[0 := (pages s ! 0)\<lparr>visible := True\<rparr>]\<rparr>"
    by (intro TabImpl.equality) (simp_all add: assms(1))
  have "AddPage sv t s =
      Option.bind (SetSelectedItem sv (Some (next_addr s)) ?s1) (\<lambda>s2. Some (Layout sv s2))"
    using assms(1) by (simp add: AddPage_def Let_def added_item_def SetTitle_def new_TabItem_def)
  also have "\<dots> = Some (Layout sv (Emit (Layout sv
       (s\<lparr>items := [SetSelected True (added_item sv t s)], next_addr := Suc (next_addr s),
           selected_item := Some (next_addr s), selected_item_index := 0,
           pages := (pages s)[0 := (pages s ! 0)\<lparr>visible := True\<rparr>]\<rparr>))))"
    by (simp only: sel eq bind.simps)
  finally show ?thesis .
qed

lemma length_erase_at: "n < length xs \<Longrightarrow> length (erase_at n xs) = length xs - 1"
  by (simp add: erase_at_def)

lemma RemovePageAt_out_of_range:
  "index < 0 \<or> int (length (items s)) \<le> index \<Longrightarrow> RemovePageAt sv index s = s"
  by (auto simp: RemovePageAt_def)

lemma RemovePageAt_selected_general:
  assumes "0 \<le> index" and "index < int (length (items s))" and "index = selected_item_index s"
  shows "selected_item_index (RemovePageAt sv index s) =
           (if length (items s) = 1 then - 1 else (index + 1) mod int (length (items s)))"
    and "selected_item (RemovePageAt sv index s) =
           (if length (items s) = 1 then None
            else Some (addr (items s ! nat ((index + 1) mod int (length (items s))))))"
    and "length (items (RemovePageAt sv index s)) = length (items s) - 1"
    and "map visible (pages (RemovePageAt sv index s)) = map visible (pages s)"
    and "layouts (RemovePageAt sv index s) = Suc (layouts s)"
    and "emits (RemovePageAt sv index s) = emits s"
proof -
  have r: "\<not> index < 0" "\<not> length (items s) \<le> nat index" "nat index < length (items s)"
    using assms(1,2) by linarith+
  show "selected_item_index (RemovePageAt sv index s) =
           (if length (items s) = 1 then - 1 else (index + 1) mod int (length (items s)))"
    using r assms(3) by (simp add: RemovePageAt_def Let_def Layout_selection)
  show "selected_item (RemovePageAt sv index s) =
           (if length (items s) = 1 then None
            else Some (addr (items s ! nat ((index + 1) mod int (length (items s))))))"
    using r assms(3) by (simp add: RemovePageAt_def Let_def Layout_selection)
  show "length (items (RemovePageAt sv index s)) = length (items s) - 1"
    using r assms(3) by (simp add: RemovePageAt_def Let_def Layout_items_length length_erase_at)
  show "map visible (pages (RemovePageAt sv index s)) = map visible (pages s)"
    using r assms(3) by (simp add: RemovePageAt_def Let_def Layout_pages)
  show "layouts (RemovePageAt sv index s) = Suc (layouts s)"
    using r assms(3) by (simp add: RemovePageAt_def Let_def Layout_counters)
  show "emits (RemovePageAt sv index s) = emits s"
    using r assms(3) by (simp add: RemovePageAt_def Let_def Layout_counters)
qed

lemma RemovePageAt_unselected_general:
  assumes "0 \<le> index" and "index < int (length (items s))" and "index \<noteq> selected_item_index s"
  shows "selected_item_index (RemovePageAt sv index s) = selected_item_index s"
    and "selected_item (RemovePageAt sv index s) = selected_item s"
    and "length (items (RemovePageAt sv index s)) = length (items s) - 1"
proof -
  have r: "\<not> index < 0" "\<not> length (items s) \<le> nat index" "nat index < length (items s)"
    using assms(1,2) by linarith+
  show "selected_item_index (RemovePageAt sv index s) = selected_item_index s"
    "selected_item (RemovePageAt sv index s) = selected_item s"
    "length (items (RemovePageAt sv index s)) = length (items s) - 1"
    using r assms(3)
    by (simp_all add: RemovePageAt_def Let_def Layout_selection Layout_items_length
        length_erase_at)
qed

text \<open>
  \<open>AddPage\<close> on a container in which the selection is consistent: without items and
  without selected item, when the \<open>Tab\<close> holds the page of index 0, the new item is
  selected, \<open>GetSelectedPageIndex()\<close> is 0 and page 0 is visible; with items, the
  new item is appended and the selection is as it was.  The \<open>on_select\<close> of the new
  item calls \<open>SetSelectedItem\<close> with the item.
\<close>

lemma AddPage_consistent:
  "(items s = [] \<and> selected_item s = None \<and> pages s \<noteq> [] \<longrightarrow>
      (\<exists>s'. AddPage sv t s = Some s' \<and>
            map title (items s') = [t] \<and> map addr (items s') = [next_addr s] \<and>
            map on_select (items s') = [Bound_SetSelectedItem] \<and>
            map selected (items s') = [True] \<and>
            GetSelectedPageIndex s' = 0 \<and> selected_item s' = Some (next_addr s) \<and>
            map visible (pages s') = (map visible (pages s))[0 := True] \<and>
            layouts s' = layouts s + 2 \<and> emits s' = emits s + 1)) \<and>
   (items s \<noteq> [] \<longrightarrow>
      (\<exists>s'. AddPage sv t s = Some s' \<and>
            map title (items s') = map title (items s) @ [t] \<and>
            map addr (items s') = map addr (items s) @ [next_addr s] \<and>
            map on_select (items s') = map on_select (items s) @ [Bound_SetSelectedItem] \<and>
            map selected (items s') = map selected (items s) @ [False] \<and>
            GetSelectedPageIndex s' = GetSelectedPageIndex s \<and>
            selected_item s' = selected_item s \<and>
            map visible (pages s') = map visible (pages s) \<and>
            layouts s' = layouts s + 1 \<and> emits s' = emits s)) \<and>
   (on_select it = Bound_SetSelectedItem \<longrightarrow>
      call_on_select sv it s = SetSelectedItem sv (Some (addr it)) s)"
proof (intro conjI impI)
  assume a: "items s = [] \<and> selected_item s = None \<and> pages s \<noteq> []"
  let ?u = "s\<lparr>items := [SetSelected True (added_item sv t s)], next_addr := Suc (next_addr s),
           selected_item := Some (next_addr s), selected_item_index := 0,
           pages := (pages s)[0 := (pages s ! 0)\<lparr>visible := True\<rparr>]\<rparr>"
  let ?s' = "Layout sv (Emit (Layout sv ?u))"
  have run: "AddPage sv t s = Some ?s'" using a by (simp add: AddPage_first)
  have im: "map f (items ?s') = [f (SetSelected True (added_item sv t s))]"
    if "\<And>it r. f (it\<lparr>item_allocation := r\<rparr>) = f it" for f :: "TabItem \<Rightarrow> 'b"
    using Layout_items_map [of f sv "Emit (Layout sv ?u)", OF that]
      Layout_items_map [of f sv ?u, OF that] by (simp add: Emit_def)
  have vis: "map visible (pages ?s') = (map visible (pages s))[0 := True]"
    using a by (simp add: Layout_pages Emit_def map_update)
  have "map title (items ?s') = [t]" "map addr (items ?s') = [next_addr s]"
    "map on_select (items ?s') = [Bound_SetSelectedItem]" "map selected (items ?s') = [True]"
    by (simp_all add: im) (simp_all add: SetSelected_def added_item_fields)
  moreover have "GetSelectedPageIndex ?s' = 0" "selected_item ?s' = Some (next_addr s)"
    "layouts ?s' = layouts s + 2" "emits ?s' = emits s + 1"
    by (simp_all add: GetSelectedPageIndex_def selected_item_index_get_def Layout_selection
        Layout_counters Emit_def)
  ultimately show "\<exists>s'. AddPage sv t s = Some s' \<and>
            map title (items s') = [t] \<and> map addr (items s') = [next_addr s] \<and>
            map on_select (items s') = [Bound_SetSelectedItem] \<and>
            map selected (items s') = [True] \<and>
            GetSelectedPageIndex s' = 0 \<and> selected_item s' = Some (next_addr s) \<and>
            map visible (pages s') = (map visible (pages s))[0 := True] \<and>
            layouts s' = layouts s + 2 \<and> emits s' = emits s + 1"
    using run vis by (intro exI [of _ ?s']) simp
next
  assume a: "items s \<noteq> []"
  let ?u = "s\<lparr>items := items s @ [added_item sv t s], next_addr := Suc (next_addr s)\<rparr>"
  let ?s' = "Layout sv ?u"
  have run: "AddPage sv t s = Some ?s'" using a by (rule AddPage_later)
  have im: "map f (items ?s') = map f (items s) @ [f (added_item sv t s)]"
    if "\<And>it r. f (it\<lparr>item_allocation := r\<rparr>) = f it" for f :: "TabItem \<Rightarrow> 'b"
    using Layout_items_map [of f sv ?u, OF that] by simp
  have "map title (items ?s') = map title (items s) @ [t]"
    "map addr (items ?s') = map addr (items s) @ [next_addr s]"
    "map on_select (items ?s') = map on_select (items s) @ [Bound_SetSelectedItem]"
    "map selected (items ?s') = map selected (items s) @ [False]"
    by (simp_all add: im added_item_fields)
  moreover have "GetSelectedPageIndex ?s' = GetSelectedPageIndex s"
    "selected_item ?s' = selected_item s" "map visible (pages ?s') = map visible (pages s)"
    "layouts ?s' = layouts s + 1" "emits ?s' = emits s"
    by (simp_all add: GetSelectedPageIndex_def selected_item_index_get_def Layout_selection
        Layout_counters Layout_pages)
  ultimately show "\<exists>s'. AddPage sv t s = Some s' \<and>
            map title (items s') = map title (items s) @ [t] \<and>
            map addr (items s') = map addr (items s) @ [next_addr s] \<and>
            map on_select (items s') = map on_select (items s) @ [Bound_SetSelectedItem] \<and>
            map selected (items s') = map selected (items s) @ [False] \<and>
            GetSelectedPageIndex s' = GetSelectedPageIndex s \<and>
            selected_item s' = selected_item s \<and>
            map visible (pages s') = map visible (pages s) \<and>
            layouts s' = layouts s + 1 \<and> emits s' = emits s"
    using run by (intro exI [of _ ?s']) simp
next
  assume "on_select it = Bound_SetSelectedItem"
  then show "call_on_select sv it s = SetSelectedItem sv (Some (addr it)) s"
    by (simp add: call_on_select_def)
qed

section \<open>MenuBase: the claims\<close>

text \<open>
  C3.  \<open>Insert(item, index)\<close> changes nothing at all (sequences, backlinks, calls
  received by the platform peer) when the item is null, when it already has an owning
  menu, or when the index is outside \<open>[0, count]\<close>.  Otherwise it splices the item
  into the sequence of this menu at the index, sets the backlink of the item to this
  menu and then calls the platform insert with the same index: the peer receives
  exactly this one call, and at the call it sees the spliced sequence and the backlink
  already set.  The count grows by one, other menus and other items are untouched.
\<close>

theorem Insert_contract:
  "(item = None \<or> (\<exists>it. item = Some it \<and> menu_of w it \<noteq> None) \<or> index < 0 \<or>
    index > item_count this w
      \<longrightarrow> Insert this item index w = w) \<and>
   (item = Some it \<and> menu_of w it = None \<and> 0 \<le> index \<and> index \<le> item_count this w
      \<longrightarrow> items_of (Insert this item index w) this =
            take (nat index) (items_of w this) @ it # drop (nat index) (items_of w this) \<and>
          item_count this (Insert this item index w) = item_count this w + 1 \<and>
          (\<forall>m. m \<noteq> this \<longrightarrow> items_of (Insert this item index w) m = items_of w m) \<and>
          menu_of (Insert this item index w) = (menu_of w)(it := Some this) \<and>
          peer (Insert this item index w) =
            peer w @ [PlatformInsert this it index
                        (take (nat index) (items_of w this) @ it # drop (nat index) (items_of w this))
                        (Some this)])"
proof (intro conjI impI)
  assume "item = None \<or> (\<exists>it. item = Some it \<and> menu_of w it \<noteq> None) \<or> index < 0 \<or>
    index > item_count this w"
  then show "Insert this item index w = w" by (rule Insert_reject)
next
  assume a: "item = Some it \<and> menu_of w it = None \<and> 0 \<le> index \<and> index \<le> item_count this w"
  then have eq: "Insert this item index w =
           \<lparr>items_of = (items_of w)(this := insert_at (nat index) it (items_of w this)),
            menu_of = (menu_of w)(it := Some this),
            peer = peer w @ [PlatformInsert this it index
                     (insert_at (nat index) it (items_of w this)) (Some this)]\<rparr>"
    by (simp add: Insert_accept)
  show "items_of (Insert this item index w) this =
      take (nat index) (items_of w this) @ it # drop (nat index) (items_of w this)"
    by (simp add: eq insert_at_def)
  show "item_count this (Insert this item index w) = item_count this w + 1"
    by (simp add: eq item_count_def length_insert_at)
  show "\<forall>m. m \<noteq> this \<longrightarrow> items_of (Insert this item index w) m = items_of w m"
    by (simp add: eq)
  show "menu_of (Insert this item index w) = (menu_of w)(it := Some this)"
    by (simp add: eq)
  show "peer (Insert this item index w) =
      peer w @ [PlatformInsert this it index
                  (take (nat index) (items_of w this) @ it # drop (nat index) (items_of w this))
                  (Some this)]"
    by (simp add: eq insert_at_def)
qed

theorem Insert_contract_witness:
  "Insert 0 (Some 7) 2 (run [Call_Append 0 (Some 5)]) = run [Call_Append 0 (Some 5)] \<and>
   Insert 0 (Some 5) 0 (run [Call_Append 0 (Some 5)]) = run [Call_Append 0 (Some 5)] \<and>
   items_of (Insert 0 (Some 7) 0 (run [Call_Append 0 (Some 5)])) 0 = [7, 5] \<and>
   menu_of (Insert 0 (Some 7) 0 (run [Call_Append 0 (Some 5)])) 7 = Some 0 \<and>
   peer (Insert 0 (Some 7) 0 (run [Call_Append 0 (Some 5)])) =
     [PlatformInsert 0 5 0 [5] (Some 0), PlatformInsert 0 7 0 [7, 5] (Some 0)]"
proof -
  let ?w = "run [Call_Append 0 (Some 5)]"
  have w: "items_of ?w 0 = [5]" "menu_of ?w 7 = None" "menu_of ?w 5 = Some 0"
    "peer ?w = [PlatformInsert 0 5 0 [5] (Some 0)]" "item_count 0 ?w = 1"
    by (simp_all add: run_def fresh_def Append_def Insert_def item_count_def insert_at_def
        set_menu_def platform_insert_def)
  show ?thesis
    using Insert_contract [of "Some 7" ?w 2 0 7] Insert_contract [of "Some 5" ?w 0 0 5]
      Insert_contract [of "Some 7" ?w 0 0 7]
    by (simp add: w)
qed

text \<open>
  C4.  \<open>Remove(item)\<close> changes nothing at all when the item is not in the sequence
  of this menu.  Otherwise the platform remove is called first: the peer receives
  exactly this one call and sees the sequence with the item still in it and the
  backlink as it was; then the backlink is cleared and the first occurrence of the item
  is erased, the items before and after it keeping their order.  Other menus and other
  items are untouched.
\<close>

theorem Remove_contract:
  "(item = None \<or> (\<exists>it. item = Some it \<and> it \<notin> set (items_of w this))
      \<longrightarrow> Remove this item w = w) \<and>
   (item = Some it \<and> it \<in> set (items_of w this)
      \<longrightarrow> (\<exists>ys zs. items_of w this = ys @ it # zs \<and> it \<notin> set ys \<and>
                  items_of (Remove this item w) this = ys @ zs) \<and>
          (\<forall>m. m \<noteq> this \<longrightarrow> items_of (Remove this item w) m = items_of w m) \<and>
          menu_of (Remove this item w) = (menu_of w)(it := None) \<and>
          peer (Remove this item w) =
            peer w @ [PlatformRemove this it (items_of w this) (menu_of w it)])"
proof (intro conjI impI)
  assume "item = None \<or> (\<exists>it. item = Some it \<and> it \<notin> set (items_of w this))"
  then show "Remove this item w = w" by (rule Remove_absent)
next
  assume a: "item = Some it \<and> it \<in> set (items_of w this)"
  then have eq: "Remove this item w =
           \<lparr>items_of = (items_of w)(this := remove1 it (items_of w this)),
            menu_of = (menu_of w)(it := None),
            peer = peer w @ [PlatformRemove this it (items_of w this) (menu_of w it)]\<rparr>"
    by (simp add: Remove_present)
  from a obtain ys zs where "items_of w this = ys @ it # zs" "it \<notin> set ys"
    "remove1 it (items_of w this) = ys @ zs"
    using remove1_split [of it "items_of w this"] by blast
  then show "\<exists>ys zs. items_of w this = ys @ it # zs \<and> it \<notin> set ys \<and>
      items_of (Remove this item w) this = ys @ zs"
    by (intro exI [of _ ys] exI [of _ zs]) (simp add: eq)
  show "\<forall>m. m \<noteq> this \<longrightarrow> items_of (Remove this item w) m = items_of w m"
    by (simp add: eq)
  show "menu_of (Remove this item w) = (menu_of w)(it := None)"
    by (simp add: eq)
  show "peer (Remove this item w) =
      peer w @ [PlatformRemove this it (items_of w this) (menu_of w it)]"
    by (simp add: eq)
qed

theorem Remove_contract_witness:
  "Remove 0 (Some 9) (run [Call_Append 0 (Some 5), Call_Append 0 (Some 7)]) =
     run [Call_Append 0 (Some 5), Call_Append 0 (Some 7)] \<and>
   items_of (Remove 0 (Some 5) (run [Call_Append 0 (Some 5), Call_Append 0 (Some 7)])) 0 = [7] \<and>
   menu_of (Remove 0 (Some 5) (run [Call_Append 0 (Some 5), Call_Append 0 (Some 7)])) 5 = None \<and>
   peer (Remove 0 (Some 5) (run [Call_Append 0 (Some 5), Call_Append 0 (Some 7)])) =
     [PlatformInsert 0 5 0 [5] (Some 0), PlatformInsert 0 7 1 [5, 7] (Some 0),
      PlatformRemove 0 5 [5, 7] (Some 0)]"
proof -
  let ?w = "run [Call_Append 0 (Some 5), Call_Append 0 (Some 7)]"
  have w: "items_of ?w 0 = [5, 7]" "menu_of ?w 5 = Some 0"
    "peer ?w = [PlatformInsert 0 5 0 [5] (Some 0), PlatformInsert 0 7 1 [5, 7] (Some 0)]"
    by (simp_all add: run_def fresh_def Append_def Insert_def item_count_def insert_at_def
        set_menu_def platform_insert_def)
  show ?thesis
    using Remove_contract [of "Some 9" ?w 0 9] Remove_contract [of "Some 5" ?w 0 5]
    by (auto simp: w append_eq_Cons_conv Cons_eq_append_conv)
qed

text \<open>
  C9.  In every state that calls of \<open>Append\<close>, \<open>Insert\<close> and \<open>Remove\<close> can
  produce, for an item without owning menu and an index in \<open>[0, count]\<close>:
  \<open>Insert(item, index)\<close> followed by \<open>Remove(item)\<close> gives back the sequences
  exactly as they were, leaves the backlink of the item null (all backlinks are as
  before), and the platform peer has received exactly one insert at that index and
  then exactly one remove of that item.
\<close>

theorem Insert_Remove_roundtrip:
  assumes "w = run cs" and "menu_of w it = None"
    and "0 \<le> index" and "index \<le> item_count this w"
  shows "items_of (Remove this (Some it) (Insert this (Some it) index w)) = items_of w \<and>
         menu_of (Remove this (Some it) (Insert this (Some it) index w)) = menu_of w \<and>
         menu_of (Remove this (Some it) (Insert this (Some it) index w)) it = None \<and>
         peer (Remove this (Some it) (Insert this (Some it) index w)) =
           peer w @
           [PlatformInsert this it index (insert_at (nat index) it (items_of w this)) (Some this),
            PlatformRemove this it (insert_at (nat index) it (items_of w this)) (Some this)]"
proof -
  let ?xs = "items_of w this"
  let ?w1 = "Insert this (Some it) index w"
  have inv: "menu_inv w" using assms(1) by (simp add: menu_inv_run)
  have absent: "it \<notin> set ?xs" using inv assms(2) by (rule menu_inv_unowned)
  have n: "nat index \<le> length ?xs" using assms(3,4) by (simp add: item_count_def)
  have w1: "?w1 =
           \<lparr>items_of = (items_of w)(this := insert_at (nat index) it ?xs),
            menu_of = (menu_of w)(it := Some this),
            peer = peer w @ [PlatformInsert this it index
                     (insert_at (nat index) it ?xs) (Some this)]\<rparr>"
    using assms(2,3,4) by (rule Insert_accept)
  have present: "it \<in> set (items_of ?w1 this)" by (simp add: w1 set_insert_at)
  have restore: "remove1 it (insert_at (nat index) it ?xs) = ?xs"
    using erase_at_find_pos [of it "insert_at (nat index) it ?xs"]
      find_pos_insert_at [OF absent n] erase_at_insert_at [OF n, of it] by simp
  have upd: "(menu_of w)(it := None) = menu_of w"
    using assms(2) by (auto simp: fun_eq_iff)
  have w2: "Remove this (Some it) ?w1 =
           \<lparr>items_of = (items_of ?w1)(this := remove1 it (items_of ?w1 this)),
            menu_of = (menu_of ?w1)(it := None),
            peer = peer ?w1 @ [PlatformRemove this it (items_of ?w1 this) (menu_of ?w1 it)]\<rparr>"
    using present by (rule Remove_present)
  show ?thesis
    unfolding w2 by (simp add: w1 restore upd assms(2))
qed

theorem Insert_Remove_roundtrip_witness:
  "items_of (Remove 0 (Some 7) (Insert 0 (Some 7) 1 (run [Call_Append 0 (Some 5), Call_Append 0 (Some 6)]))) 0
     = [5, 6] \<and>
   menu_of (Remove 0 (Some 7) (Insert 0 (Some 7) 1 (run [Call_Append 0 (Some 5), Call_Append 0 (Some 6)]))) 7
     = None \<and>
   peer (Remove 0 (Some 7) (Insert 0 (Some 7) 1 (run [Call_Append 0 (Some 5), Call_Append 0 (Some 6)]))) =
     [PlatformInsert 0 5 0 [5] (Some 0), PlatformInsert 0 6 1 [5, 6] (Some 0),
      PlatformInsert 0 7 1 [5, 7, 6] (Some 0), PlatformRemove 0 7 [5, 7, 6] (Some 0)]"
proof -
  let ?w = "run [Call_Append 0 (Some 5), Call_Append 0 (Some 6)]"
  have w: "items_of ?w 0 = [5, 6]" "menu_of ?w 7 = None" "item_count 0 ?w = 2"
    "peer ?w = [PlatformInsert 0 5 0 [5] (Some 0), PlatformInsert 0 6 1 [5, 6] (Some 0)]"
    by (simp_all add: run_def fresh_def Append_def Insert_def item_count_def insert_at_def
        set_menu_def platform_insert_def)
  show ?thesis
    using Insert_Remove_roundtrip [of ?w "[Call_Append 0 (Some 5), Call_Append 0 (Some 6)]" 7 1 0]
    by (simp add: w insert_at_def)
qed

text \<open>
  C10.  In every state reached from fresh menus by any sequence of \<open>Append\<close>,
  \<open>Insert\<close> and \<open>Remove\<close> calls, no item occurs twice in the sequence of a menu,
  and the backlink of an item points to a menu exactly when the item is in the
  sequence of that menu.
\<close>

theorem reachable_items_distinct_and_owned:
  "distinct (items_of (run cs) m) \<and>
   (menu_of (run cs) i = Some m \<longleftrightarrow> i \<in> set (items_of (run cs) m))"
  using menu_inv_run [of cs] by (simp add: menu_inv_def)

theorem reachable_items_distinct_and_owned_witness:
  "distinct (items_of (run [Call_Append 0 (Some 5), Call_Insert 0 (Some 5) 0, Call_Insert 0 (Some 7) 0,
       Call_Remove 0 (Some 5)]) 0) \<and>
   (menu_of (run [Call_Append 0 (Some 5), Call_Insert 0 (Some 5) 0, Call_Insert 0 (Some 7) 0,
       Call_Remove 0 (Some 5)]) 5 = Some 0 \<longleftrightarrow>
    5 \<in> set (items_of (run [Call_Append 0 (Some 5), Call_Insert 0 (Some 5) 0, Call_Insert 0 (Some 7) 0,
       Call_Remove 0 (Some 5)]) 0))"
  by (rule reachable_items_distinct_and_owned)

section \<open>Tab container: the claims\<close>



text \<open>
  C6, as the code has it.  \<open>SetFont\<close> stores the font in the container and in every
  tab item, discards the cached strip height (the next read of the strip height is the
  value measured with the new font, whatever was cached before) and runs \<open>Layout\<close>,
  which also requests a repaint.  \<open>SetColor\<close> stores the colour in the container and
  in every tab item and requests a repaint; it runs no layout and leaves the cached
  strip height as it is.  A change of the display scale discards the cached strip
  height and runs \<open>Layout\<close>.
\<close>

theorem property_propagation:
  "map item_font (items (SetFont sv f s)) = replicate (length (items s)) f \<and>
   font (SetFont sv f s) = f \<and>
   fst (GetItemsHeight sv (SetFont sv f s)) = fresh_items_height sv (SetFont sv f s) \<and>
   layouts (SetFont sv f s) = Suc (layouts s) \<and>
   invalidates (SetFont sv f s) = Suc (invalidates s) \<and>
   map item_color (items (SetColor c s)) = replicate (length (items s)) c \<and>
   color (SetColor c s) = c \<and>
   invalidates (SetColor c s) = Suc (invalidates s) \<and>
   layouts (SetColor c s) = layouts s \<and>
   items_height (SetColor c s) = items_height s \<and>
   scale_factor (OnDPIChanged sv sf s) = sf \<and>
   fst (GetItemsHeight sv (OnDPIChanged sv sf s)) = fresh_items_height sv (OnDPIChanged sv sf s) \<and>
   layouts (OnDPIChanged sv sf s) = Suc (layouts s) \<and>
   invalidates (OnDPIChanged sv sf s) = Suc (invalidates s)"
proof (intro conjI)
  show "map item_font (items (SetFont sv f s)) = replicate (length (items s)) f"
    unfolding SetFont_unfold
    by (simp add: Layout_items_map [of item_font] map_replicate_const comp_def)
  show "font (SetFont sv f s) = f"
    by (simp add: SetFont_unfold Layout_properties)
  show "fst (GetItemsHeight sv (SetFont sv f s)) = fresh_items_height sv (SetFont sv f s)"
    unfolding SetFont_unfold by (rule Layout_after_invalidation) simp
  show "layouts (SetFont sv f s) = Suc (layouts s)"
    by (simp add: SetFont_unfold Layout_counters)
  show "invalidates (SetFont sv f s) = Suc (invalidates s)"
    by (simp add: SetFont_unfold Layout_counters)
  show "map item_color (items (SetColor c s)) = replicate (length (items s)) c"
    by (simp add: SetColor_def Let_def map_replicate_const comp_def)
  show "color (SetColor c s) = c" by (simp add: SetColor_def Let_def)
  show "invalidates (SetColor c s) = Suc (invalidates s)" by (simp add: SetColor_def Let_def)
  show "layouts (SetColor c s) = layouts s" by (simp add: SetColor_def Let_def)
  show "items_height (SetColor c s) = items_height s" by (simp add: SetColor_def Let_def)
  show "scale_factor (OnDPIChanged sv sf s) = sf"
    by (simp add: OnDPIChanged_unfold Layout_properties)
  show "fst (GetItemsHeight sv (OnDPIChanged sv sf s)) =
      fresh_items_height sv (OnDPIChanged sv sf s)"
    unfolding OnDPIChanged_unfold by (rule Layout_after_invalidation) simp
  show "layouts (OnDPIChanged sv sf s) = Suc (layouts s)"
    by (simp add: OnDPIChanged_unfold Layout_counters)
  show "invalidates (OnDPIChanged sv sf s) = Suc (invalidates s)"
    by (simp add: OnDPIChanged_unfold Layout_counters)
qed

theorem property_propagation_witness:
  "map_option (\<lambda>s. map item_font (items (SetFont sv_ex 2 s))) tab_abc = Some [2, 2, 2] \<and>
   map_option (\<lambda>s. map item_color (items (SetColor 9 s))) tab_abc = Some [9, 9, 9] \<and>
   map_option (\<lambda>s. layouts (SetColor 9 s) = layouts s) tab_abc = Some True \<and>
   map_option (\<lambda>s. layouts (OnDPIChanged sv_ex 2 s) = Suc (layouts s)) tab_abc = Some True"
proof -
  obtain s where s: "tab_abc = Some s" "length (items s) = 3"
  proof -
    have "map_option (\<lambda>s. length (items s)) tab_abc = Some 3" by code_simp
    then show ?thesis using that by auto
  qed
  have r: "replicate 3 x = [x, x, x]" for x :: nat
    by (simp add: numeral_3_eq_3)
  show ?thesis
    using property_propagation [of sv_ex 2 s 9 2]
    by (simp add: s r)
qed

text \<open>
  C6 as stated fails for the colour: in the container from which the only page has
  been removed, the strip height cached by the earlier layouts (19) is still cached
  after \<open>SetColor\<close>, and no layout has run; \<open>SetFont\<close> on the same container
  leaves the cache empty (\<open>-1\<close>).
\<close>

theorem SetColor_keeps_cache:
  "map_option (\<lambda>s. (items_height (SetColor 9 s), layouts (SetColor 9 s) = layouts s,
                     items_height (SetFont sv_ex 2 s)))
     (map_option (RemovePageAt sv_ex 0) (AddPage sv_ex ''a'' (tab_ex sv_ex))) = Some (19, True, - 1)"
  by code_simp

text \<open>
  C7, as the code has it.  \<open>GetMinimumSize()\<close> returns the sum of the allocated
  widths of the items, and the strip height, each plus the \<open>int\<close> value of
  \<open>2 * kContentPadding * scale_factor()\<close>: the product is computed in single
  precision and truncated toward zero.  The allocated width that \<open>Layout\<close> gives
  an item is the width of its measured size.
\<close>

theorem GetMinimumSize_value:
  "fst (GetMinimumSize sv s) =
     \<lparr>width = sum_list (map (\<lambda>it. width (rect_size (item_allocation it))) (items s)) +
              cpp_trunc (f32_mul (f32_of_int (2 * kContentPadding)) (scale_factor s)),
      height = fst (GetItemsHeight sv s) +
               cpp_trunc (f32_mul (f32_of_int (2 * kContentPadding)) (scale_factor s))\<rparr> \<and>
   map (\<lambda>it. width (rect_size (item_allocation it))) (items (Layout sv s)) =
     map (\<lambda>it. width (item_size it)) (items s)"
proof (intro conjI)
  show "fst (GetMinimumSize sv s) =
     \<lparr>width = sum_list (map (\<lambda>it. width (rect_size (item_allocation it))) (items s)) +
              cpp_trunc (f32_mul (f32_of_int (2 * kContentPadding)) (scale_factor s)),
      height = fst (GetItemsHeight sv s) +
               cpp_trunc (f32_mul (f32_of_int (2 * kContentPadding)) (scale_factor s))\<rparr>"
    by (rule GetMinimumSize_unfold)
next
  show "map (\<lambda>it. width (rect_size (item_allocation it))) (items (Layout sv s)) =
     map (\<lambda>it. width (item_size it)) (items s)"
    by (rule Layout_items_width)
qed

text \<open>
  At scale factor 1 with the pages \<open>a\<close>, \<open>b\<close>, \<open>c\<close> the allocated widths are
  three times 11, the strip height is 19 and the addend is 10.  At the float nearest
  to 1.3 with the page \<open>a\<close> the allocated width is 12, the strip height 19 and the
  addend 13: the single-precision product \<open>10 * 1.3f\<close> is 13.
\<close>

theorem GetMinimumSize_value_witness:
  "map_option (\<lambda>s. fst (GetMinimumSize sv_ex s)) tab_abc = Some \<lparr>width = 43, height = 29\<rparr> \<and>
   map_option (\<lambda>s. fst (GetMinimumSize sv_130 s)) (AddPage sv_130 ''a'' (tab_ex sv_130)) =
     Some \<lparr>width = 25, height = 32\<rparr>"
proof -
  obtain s where s: "tab_abc = Some s"
    "map (\<lambda>it. width (rect_size (item_allocation it))) (items s) = [11, 11, 11]"
    "cpp_trunc (f32_mul (f32_of_int (2 * kContentPadding)) (scale_factor s)) = 10"
    "fst (GetItemsHeight sv_ex s) = 19"
  proof -
    have "map_option (\<lambda>s. (map (\<lambda>it. width (rect_size (item_allocation it))) (items s),
        cpp_trunc (f32_mul (f32_of_int (2 * kContentPadding)) (scale_factor s)),
        fst (GetItemsHeight sv_ex s))) tab_abc =
        Some ([11, 11, 11], 10, 19)" by code_simp
    then show ?thesis using that by auto
  qed
  obtain t where t: "AddPage sv_130 ''a'' (tab_ex sv_130) = Some t"
    "map (\<lambda>it. width (rect_size (item_allocation it))) (items t) = [12]"
    "cpp_trunc (f32_mul (f32_of_int (2 * kContentPadding)) (scale_factor t)) = 13"
    "fst (GetItemsHeight sv_130 t) = 19"
  proof -
    have "map_option (\<lambda>s. (map (\<lambda>it. width (rect_size (item_allocation it))) (items s),
        cpp_trunc (f32_mul (f32_of_int (2 * kContentPadding)) (scale_factor s)),
        fst (GetItemsHeight sv_130 s))) (AddPage sv_130 ''a'' (tab_ex sv_130)) =
        Some ([12], 13, 19)" by code_simp
    then show ?thesis using that by auto
  qed
  show ?thesis
    using GetMinimumSize_value [of sv_ex s, THEN conjunct1]
      GetMinimumSize_value [of sv_130 t, THEN conjunct1]
    by (simp add: s t)
qed

text \<open>
  C7 as stated fails at a fractional scale factor: at 1.25, with the single page
  \<open>a\<close>, the allocated widths sum to 12 and \<open>2 * kContentPadding * scale_factor()\<close>
  is 12.5 (exactly, also in single precision), while the returned width is 24.
\<close>

theorem GetMinimumSize_fractional_scale:
  "map_option (\<lambda>s. (width (fst (GetMinimumSize sv_125 s)),
                     sum_list (map (\<lambda>it. width (rect_size (item_allocation it))) (items s)),
                     2 * of_int kContentPadding * scale_factor s,
                     of_int (width (fst (GetMinimumSize sv_125 s))) =
                       of_int (sum_list (map (\<lambda>it. width (rect_size (item_allocation it))) (items s))) +
                       2 * of_int kContentPadding * scale_factor s))
     (AddPage sv_125 ''a'' (tab_ex sv_125)) = Some (24, 12, 25 / 2, False)"
  by code_simp

text \<open>
  C8, at an input where the code departs from it.  Pages \<open>a\<close> and \<open>b\<close>,
  \<open>b\<close> selected (index 1), then \<open>RemovePageAt(0)\<close> twice: the first call leaves
  the selected index at 1, so the second call does not see that it removes the selected
  item, and the container is left without items but with \<open>selected_item_\<close> pointing
  to the destroyed item.  \<open>AddPage\<close> then appends the first item and calls
  \<open>SetSelectedItem\<close>, which calls \<open>SetSelected(false)\<close> through that pointer: the
  item is not selected and no selected index is delivered.
\<close>

theorem AddPage_after_stale_removal:
  "map_option (\<lambda>s. (length (items s), selected_item s, GetSelectedPageIndex s,
                     AddPage sv_ex ''c'' s)) tab_emptied_stale =
   Some (0, Some 1, 1, None)"
  by code_simp

text \<open>
  C1, at the input where the code departs from it.  Pages \<open>a\<close>, \<open>b\<close>, \<open>c\<close>,
  \<open>b\<close> selected (index 1), then \<open>RemovePageAt(1)\<close>: the items left are \<open>a\<close> and
  \<open>c\<close>, the item \<open>c\<close> is the selected one and is at position 1, but the selected
  index that \<open>GetSelectedPageIndex()\<close> reports is 2, and no page has been made
  visible: the page of \<open>c\<close> is still hidden.
\<close>

theorem RemovePageAt_selected_middle:
  "map_option (\<lambda>s. (GetSelectedPageIndex s, map title (items s), map selected (items s),
                     map visible (pages s)))
     (map_option (RemovePageAt sv_ex 1) (Option.bind tab_abc (SelectItemAt sv_ex 1))) =
   Some (2, [''a'', ''c''], [False, True], [False, True, False])"
  by code_simp

text \<open>
  C2, at an input where the code departs from it.  Pages \<open>a\<close>, \<open>b\<close>, \<open>c\<close>,
  \<open>c\<close> selected (index 2), then \<open>RemovePageAt(0)\<close>: two items are left and the
  selected index is still 2, which is neither \<open>-1\<close> nor the index of an item.
\<close>

theorem RemovePageAt_before_selection:
  "map_option (\<lambda>s. (GetSelectedPageIndex s, length (items s), selected_index_valid s))
     (map_option (RemovePageAt sv_ex 0) (Option.bind tab_abc (SelectItemAt sv_ex 2))) =
   Some (2, 2, False)"
  by code_simp

end
